theory Spec2Isabelle
  imports Main
begin

section \<open>Python strings\<close>

text \<open>
  A Python \<open>str\<close> is modelled as a \<open>string\<close>, one \<open>char\<close> per code point. HOL's
  \<open>char\<close> has 256 values, so the model covers the strings whose code points are below 256.
  What follows are the methods of \<open>str\<close> that \<open>convert.py\<close> calls.
\<close>

definition is_space :: "char \<Rightarrow> bool" where
  \<comment> \<open>\<open>str.isspace\<close> on one character: TAB..CR, FS..US, the blank, NEL and the
      no-break space.\<close>
  "is_space c =
     (let n = (of_char c :: nat)
      in (9 \<le> n \<and> n \<le> 13) \<or> (28 \<le> n \<and> n \<le> 32) \<or> n = 133 \<or> n = 160)"

definition strip :: "string \<Rightarrow> string" where
  \<comment> \<open>\<open>s.strip()\<close>: white space removed at both ends.\<close>
  "strip s = rev (dropWhile is_space (rev (dropWhile is_space s)))"

function count_str :: "string \<Rightarrow> string \<Rightarrow> nat" where
  \<comment> \<open>\<open>s.count(sub)\<close>: the occurrences of \<open>sub\<close> that do not overlap, from the left.\<close>
  "count_str s sub =
     (if sub = [] then length s + 1
      else if s = [] then 0
      else if take (length sub) s = sub then 1 + count_str (drop (length sub) s) sub
      else count_str (tl s) sub)"
  by pat_completeness auto
termination
  by (relation "measure (\<lambda>(s, sub). length s)") auto

function replace_str :: "string \<Rightarrow> string \<Rightarrow> string \<Rightarrow> string" where
  \<comment> \<open>\<open>s.replace(old, new)\<close> for a non-empty \<open>old\<close> (the only case the program
      has): every occurrence from the left, never looking at what was put in.\<close>
  "replace_str s old new =
     (if old = [] \<or> s = [] then s
      else if take (length old) s = old then new @ replace_str (drop (length old) s) old new
      else hd s # replace_str (tl s) old new)"
  by pat_completeness auto
termination
  by (relation "measure (\<lambda>(s, old, new). length s)") auto

declare count_str.simps [simp del] replace_str.simps [simp del]

section \<open>The front-matter splitter\<close>

text \<open>
  \<open>parse(post_path)\<close> opens the post in text mode, so the text it reads has its line ends
  already translated to the line feed. The model takes that text; \<open>readlines\<close> cuts it
  after every line feed, as \<open>post.readlines()\<close> does.
\<close>

fun readlines :: "string \<Rightarrow> string list" where
  "readlines [] = []"
| "readlines (c # cs) =
     (if c = CHR 0x0A then [c] # readlines cs
      else (case readlines cs of [] \<Rightarrow> [[c]] | l # ls \<Rightarrow> (c # l) # ls))"

definition YAML_BOUNDARY :: string where
  "YAML_BOUNDARY = ''---''"

record scan =
  raw_yaml :: string
  markdown :: string
  in_yaml :: bool

definition scan_start :: scan where
  "scan_start = \<lparr>raw_yaml = [], markdown = [], in_yaml = True\<rparr>"

definition parse_line :: "scan \<Rightarrow> string \<Rightarrow> scan" where
  \<comment> \<open>One turn of the loop over the lines. A Python string is true when it is not empty.\<close>
  "parse_line st line =
     (if strip line = YAML_BOUNDARY \<and> in_yaml st \<and> raw_yaml st \<noteq> []
      then st\<lparr>in_yaml := False\<rparr>
      else if in_yaml st then st\<lparr>raw_yaml := raw_yaml st @ line\<rparr>
      else st\<lparr>markdown := markdown st @ line\<rparr>)"

definition parse_lines :: "string list \<Rightarrow> scan" where
  "parse_lines ls = foldl parse_line scan_start ls"

datatype error = YAMLError

definition parse :: "(string \<Rightarrow> error + 'fm) \<Rightarrow> string \<Rightarrow> error + ('fm \<times> string)" where
  \<comment> \<open>\<open>yaml_load\<close> stands for \<open>yaml.load(_, Loader=yaml.SafeLoader)\<close>, which is not
      part of the program: it decodes the text or raises.\<close>
  "parse yaml_load text =
     (let st = parse_lines (readlines text)
      in case yaml_load (raw_yaml st) of
           Inl e \<Rightarrow> Inl e
         | Inr front_matter \<Rightarrow> Inr (front_matter, strip (markdown st)))"

text \<open>
  The scan as the specification words it: the lines kept for the front matter, the lines
  kept for the body, and the flag. A boundary line closes the front matter when the flag
  is up and at least one line has been kept for the front matter; it is then dropped.
\<close>

record split =
  fm_lines :: "string list"
  body_lines :: "string list"
  in_front_matter :: bool

definition split_start :: split where
  "split_start = \<lparr>fm_lines = [], body_lines = [], in_front_matter = True\<rparr>"

definition is_boundary :: "string \<Rightarrow> bool" where
  "is_boundary line = (strip line = ''---'')"

definition split_line :: "split \<Rightarrow> string \<Rightarrow> split" where
  "split_line sp line =
     (if is_boundary line \<and> in_front_matter sp \<and> 0 < length (fm_lines sp)
      then sp\<lparr>in_front_matter := False\<rparr>
      else if in_front_matter sp then sp\<lparr>fm_lines := fm_lines sp @ [line]\<rparr>
      else sp\<lparr>body_lines := body_lines sp @ [line]\<rparr>)"

definition split_lines :: "string list \<Rightarrow> split" where
  "split_lines ls = foldl split_line split_start ls"

definition document :: "nat \<Rightarrow> string \<Rightarrow> string \<Rightarrow> string" where
  \<comment> \<open>A post as the tests build it: \<open>k\<close> boundary lines, the YAML block, the closing
      boundary line, the Markdown body.\<close>
  "document k yaml body =
     concat (replicate k ''---\<newline>'') @ yaml @ ''\<newline>---\<newline>'' @ body"

definition yaml_text :: "string \<Rightarrow> error + string" where
  \<comment> \<open>A decoder for the examples: it gives back the text, without a first line that is
      the document start mark.\<close>
  \<open>yaml_text s = Inr (if take 4 s = ''---\<newline>'' then drop 4 s else s)\<close>

definition first_line :: "string \<Rightarrow> string" where
  "first_line s = takeWhile (\<lambda>c. c \<noteq> CHR 0x0A) s"

section \<open>More of the Python library\<close>

function str_nat :: "nat \<Rightarrow> string" where
  "str_nat n =
     (if n < 10 then [char_of (48 + n)] else str_nat (n div 10) @ [char_of (48 + n mod 10)])"
  by pat_completeness auto
termination
  by (relation "measure (\<lambda>n. n)") auto

declare str_nat.simps [simp del]

definition str_int :: "int \<Rightarrow> string" where
  \<comment> \<open>\<open>str(i)\<close> for an integer.\<close>
  "str_int i = (if i < 0 then CHR ''-'' # str_nat (nat (- i)) else str_nat (nat i))"

fun join_str :: "string \<Rightarrow> string list \<Rightarrow> string" where
  \<comment> \<open>\<open>sep.join(xs)\<close>\<close>
  "join_str sep [] = []"
| "join_str sep [x] = x"
| "join_str sep (x # y # ys) = x @ sep @ join_str sep (y # ys)"

definition basename :: "string \<Rightarrow> string" where
  \<comment> \<open>\<open>os.path.basename(p)\<close> of \<open>posixpath\<close>: what follows the last slash.\<close>
  "basename p = rev (takeWhile (\<lambda>c. c \<noteq> CHR ''/'') (rev p))"

fun format_from :: "(string \<Rightarrow> string) \<Rightarrow> string option \<Rightarrow> string \<Rightarrow> string" where
  "format_from args None [] = []"
| "format_from args (Some name) [] = []"
| "format_from args None (c # cs) =
     (if c = CHR ''{'' then format_from args (Some []) cs else c # format_from args None cs)"
| "format_from args (Some name) (c # cs) =
     (if c = CHR ''}'' then args name @ format_from args None cs
      else format_from args (Some (name @ [c])) cs)"

definition format_str :: "string \<Rightarrow> (string \<Rightarrow> string) \<Rightarrow> string" where
  \<comment> \<open>\<open>template.format(...)\<close> for a template whose braces only enclose field names, as
      every template of the program: each field is replaced by its argument (the empty
      name is the positional argument), and what is put in is not read again.\<close>
  "format_str template args = format_from args None template"

fun split_on :: "char \<Rightarrow> string \<Rightarrow> string list" where
  \<comment> \<open>\<open>s.split(c)\<close>\<close>
  "split_on c [] = [[]]"
| "split_on c (x # xs) =
     (if x = c then [] # split_on c xs
      else (case split_on c xs of [] \<Rightarrow> [[x]] | l # ls \<Rightarrow> (x # l) # ls))"

definition is_blank :: "char \<Rightarrow> bool" where
  "is_blank c = (c = CHR '' '' \<or> c = CHR 0x09)"

fun common_prefix :: "string \<Rightarrow> string \<Rightarrow> string" where
  "common_prefix (x # xs) (y # ys) = (if x = y then x # common_prefix xs ys else [])"
| "common_prefix xs ys = []"

definition dedent :: "string \<Rightarrow> string" where
  \<comment> \<open>\<open>textwrap.dedent(text)\<close>: the lines of blanks and tabs only are emptied, the margin
      is the longest run of blanks and tabs that starts every other line, and it is
      removed from each line that starts with it.\<close>
  "dedent text =
     (let ls = map (\<lambda>l. if list_all is_blank l then [] else l) (split_on (CHR 0x0A) text);
          indents = map (takeWhile is_blank) (filter (\<lambda>l. l \<noteq> []) ls);
          margin = (case indents of [] \<Rightarrow> [] | i # rest \<Rightarrow> fold common_prefix rest i)
      in join_str [CHR 0x0A]
           (map (\<lambda>l. if take (length margin) l = margin then drop (length margin) l else l) ls))"

definition hex_digit :: "nat \<Rightarrow> char" where
  "hex_digit n = ''0123456789abcdef'' ! (n mod 16)"

definition json_char :: "char \<Rightarrow> string" where
  \<comment> \<open>One character inside a JSON string, as \<open>json.dumps\<close> writes it with
      \<open>ensure_ascii\<close>, its default.\<close>
  "json_char c =
     (let n = (of_char c :: nat)
      in if c = CHR 0x22 then [CHR 0x5C, CHR 0x22]
         else if c = CHR 0x5C then [CHR 0x5C, CHR 0x5C]
         else if n = 8 then [CHR 0x5C, CHR ''b'']
         else if n = 12 then [CHR 0x5C, CHR ''f'']
         else if n = 10 then [CHR 0x5C, CHR ''n'']
         else if n = 13 then [CHR 0x5C, CHR ''r'']
         else if n = 9 then [CHR 0x5C, CHR ''t'']
         else if 32 \<le> n \<and> n \<le> 126 then [c]
         else [CHR 0x5C, CHR ''u'', CHR ''0'', CHR ''0'', hex_digit (n div 16), hex_digit n])"

definition json_string :: "string \<Rightarrow> string" where
  "json_string s = [CHR 0x22] @ concat (map json_char s) @ [CHR 0x22]"

definition json_dumps_diagram :: "string \<Rightarrow> string" where
  \<comment> \<open>\<open>json.dumps({"code": code, "mermaid": {"theme": "default"}})\<close>: the keys in the
      order of the literal, the separators \<open>", "\<close> and \<open>": "\<close>.\<close>
  \<open>json_dumps_diagram code =
     ''{"code": '' @ json_string code @ '', "mermaid": {"theme": "default"}}''\<close>

definition utf8_encode :: "string \<Rightarrow> string" where
  \<comment> \<open>\<open>s.encode()\<close>: one byte below 128, two bytes from 128 to 255.\<close>
  "utf8_encode s =
     concat (map (\<lambda>c. let n = (of_char c :: nat)
                        in if n < 128 then [c]
                           else [char_of (192 + n div 64), char_of (128 + n mod 64)]) s)"

definition b64_char :: "nat \<Rightarrow> char" where
  "b64_char n =
     ''ABCDEFGHIJKLMNOPQRSTUVWXYZabcdefghijklmnopqrstuvwxyz0123456789+/'' ! (n mod 64)"

fun b64encode :: "string \<Rightarrow> string" where
  \<comment> \<open>\<open>base64.b64encode\<close>: three bytes give four characters, the rest is padded.\<close>
  "b64encode [] = []"
| "b64encode [a] =
     (let n = (of_char a :: nat) * 65536
      in [b64_char (n div 262144), b64_char (n div 4096), CHR ''='', CHR ''=''])"
| "b64encode [a, b] =
     (let n = (of_char a :: nat) * 65536 + of_char b * 256
      in [b64_char (n div 262144), b64_char (n div 4096), b64_char (n div 64), CHR ''=''])"
| "b64encode (a # b # c # rest) =
     (let n = (of_char a :: nat) * 65536 + of_char b * 256 + of_char c
      in [b64_char (n div 262144), b64_char (n div 4096), b64_char (n div 64), b64_char n]
         @ b64encode rest)"

section \<open>The inherited renderer\<close>

text \<open>
  \<open>ConfluenceRenderer\<close> extends \<open>mistune.HTMLRenderer\<close> and calls four of its methods
  through \<open>super()\<close>. Three of them are written out here as mistune 2 has them, the
  version whose \<open>create_markdown\<close> and \<open>plugin_table\<close> the program imports; the tests
  of the repository fix the results of \<open>heading\<close> and \<open>block_quote\<close>, and \<open>text\<close>
  is the one of a renderer made with \<open>escape\<close> on, as \<open>ConfluenceRenderer\<close> is. The
  fourth, \<open>link\<close>, is a parameter \<open>super_link\<close> of the model, and so is \<open>netloc\<close>,
  which stands for \<open>urlparse(u).netloc\<close> of \<open>urllib.parse\<close>. Both parameters are
  total functions: an address at which \<open>urlparse\<close> itself raises is outside the model.
\<close>

definition HTMLRenderer_heading :: "string \<Rightarrow> int \<Rightarrow> string" where
  \<open>HTMLRenderer_heading text level =
     ''<h'' @ str_int level @ ''>'' @ text @ ''</h'' @ str_int level @ ''>\<newline>''\<close>

definition HTMLRenderer_block_quote :: "string \<Rightarrow> string" where
  \<open>HTMLRenderer_block_quote text = ''<blockquote>\<newline>'' @ text @ ''</blockquote>\<newline>''\<close>

definition escape :: "string \<Rightarrow> string" where
  \<comment> \<open>\<open>mistune.util.escape\<close>\<close>
  \<open>escape s =
     replace_str (replace_str (replace_str (replace_str s ''&'' ''&amp;'') ''<'' ''&lt;'')
       ''>'' ''&gt;'') [CHR 0x22] ''&quot;''\<close>

definition HTMLRenderer_text :: "string \<Rightarrow> string" where
  "HTMLRenderer_text text = escape text"

definition netloc_of :: "string \<Rightarrow> string" where
  \<comment> \<open>The core of \<open>urllib.parse.urlsplit\<close>, for the examples: a scheme and its colon
      are taken off, and after two slashes the network location runs to the first of
      \<open>/\<close>, \<open>?\<close> and \<open>#\<close>.\<close>
  "netloc_of url =
     (let scheme_chars = ''abcdefghijklmnopqrstuvwxyzABCDEFGHIJKLMNOPQRSTUVWXYZ0123456789+-.'';
          letters = take 52 scheme_chars;
          head = takeWhile (\<lambda>c. c \<noteq> CHR '':'') url;
          rest = (if head \<noteq> [] \<and> length head < length url \<and> hd url \<in> set letters
                     \<and> list_all (\<lambda>c. c \<in> set scheme_chars) head
                  then drop (length head + 1) url else url)
      in if take 2 rest = ''//''
         then takeWhile (\<lambda>c. c \<noteq> CHR ''/'' \<and> c \<noteq> CHR ''?'' \<and> c \<noteq> CHR ''#'') (drop 2 rest)
         else [])"

section \<open>The Confluence renderer\<close>

record renderer =
  attachments :: "string list"
  authors :: "string list"
  has_toc :: bool
  top_heading :: "string option"

definition init_renderer :: "string list option \<Rightarrow> renderer" where
  \<comment> \<open>\<open>ConfluenceRenderer(authors)\<close>; \<open>None\<close> becomes the empty list.\<close>
  "init_renderer a =
     \<lparr>attachments = [],
      authors = (case a of None \<Rightarrow> [] | Some xs \<Rightarrow> xs),
      has_toc = False,
      top_heading = None\<rparr>"

definition author_template :: string where
  \<open>author_template =
     ''<ac:structured-macro ac:name="profile-picture" ac:schema-version="1">\<newline>'' @
     ''                <ac:parameter ac:name="User"><ri:user ri:userkey="{user_key}" /></ac:parameter>\<newline>'' @
     ''            </ac:structured-macro>&nbsp;\<newline>'' @
     ''            <ac:link><ri:user ri:userkey="{user_key}" /></ac:link>''\<close>

definition toc_source :: string where
  \<open>toc_source =
     ''\<newline>'' @
     ''            <h1>Table of Contents</h1>\<newline>'' @
     ''            <p><ac:structured-macro ac:name="toc" ac:schema-version="1">\<newline>'' @
     ''                <ac:parameter ac:name="exclude">^(Authors|Table of Contents)$</ac:parameter>\<newline>'' @
     ''            </ac:structured-macro></p>''\<close>

definition column_source :: string where
  \<open>column_source =
     ''\<newline>'' @
     ''            <ac:structured-macro ac:name="column" ac:schema-version="1">\<newline>'' @
     ''                <ac:parameter ac:name="width">{width}</ac:parameter>\<newline>'' @
     ''                <ac:rich-text-body>{content}</ac:rich-text-body>\<newline>'' @
     ''            </ac:structured-macro>''\<close>

definition code_source :: string where
  \<open>code_source =
     ''            <ac:structured-macro ac:name="code" ac:schema-version="1">\<newline>'' @
     ''                <ac:parameter ac:name="language">{l}</ac:parameter>\<newline>'' @
     ''                <ac:plain-text-body><![CDATA[{c}]]></ac:plain-text-body>\<newline>'' @
     ''            </ac:structured-macro>\<newline>'' @
     ''        ''\<close>

definition render_authors :: "renderer \<Rightarrow> string \<times> renderer" where
  \<open>render_authors self =
     (let author_content =
            join_str ''<br />''
              (map (\<lambda>user_key. format_str author_template (\<lambda>k. user_key)) (authors self))
      in (format_str ''<h1>Authors</h1><p>{}</p>'' (\<lambda>k. author_content), self))\<close>

definition layout :: "string \<Rightarrow> renderer \<Rightarrow> string \<times> renderer" where
  \<open>layout content self =
     (let toc = (if \<not> has_toc self then [] else dedent toc_source);
          (authors_html, self1) = render_authors self;
          column = dedent column_source;
          sidebar = format_str column
                      (\<lambda>k. if k = ''width'' then ''30%'' else toc @ authors_html);
          main_content = format_str column
                      (\<lambda>k. if k = ''width'' then ''800px'' else content)
      in (sidebar @ main_content, self1))\<close>

definition heading :: "string \<Rightarrow> int \<Rightarrow> renderer \<Rightarrow> string \<times> renderer" where
  "heading text level self =
     (let self1 = self\<lparr>has_toc := True\<rparr>
      in if top_heading self1 = None \<and> level = 1
         then ([], self1\<lparr>top_heading := Some text\<rparr>)
         else (HTMLRenderer_heading text level, self1))"

definition block_mermaid :: "string \<Rightarrow> renderer \<Rightarrow> string \<times> renderer" where
  \<comment> \<open>The base64 text is ASCII, so decoding it gives the same characters.\<close>
  \<open>block_mermaid code self =
     (let data = b64encode (utf8_encode (json_dumps_diagram code));
          src = ''https://mermaid.ink/img/'' @ data;
          image_tag = format_str ''<ri:url ri:value="{}" />'' (\<lambda>k. src)
      in (format_str ''<ac:image>{image_tag}</ac:image>'' (\<lambda>k. image_tag), self))\<close>

definition block_quote :: "string \<Rightarrow> renderer \<Rightarrow> string \<times> renderer" where
  \<open>block_quote content self =
     (let stripped = (if count_str content ''</p>'' = 1
                      then replace_str (replace_str content ''<p>'' []) ''</p>'' []
                      else content)
      in (HTMLRenderer_block_quote stripped, self))\<close>

definition block_code :: "string \<Rightarrow> string option \<Rightarrow> renderer \<Rightarrow> string \<times> renderer" where
  \<open>block_code code lang self =
     (if lang = Some ''mermaid'' then block_mermaid code self
      else (format_str (dedent code_source)
              (\<lambda>k. if k = ''c'' then code else (case lang of None \<Rightarrow> [] | Some l \<Rightarrow> l)),
            self))\<close>

definition render_image ::
  "(string \<Rightarrow> string) \<Rightarrow> string \<Rightarrow> string \<Rightarrow> string \<Rightarrow> renderer \<Rightarrow> string \<times> renderer" where
  \<comment> \<open>The method \<open>image\<close>; HOL has a constant of that name.\<close>
  \<open>render_image netloc src title alt_text self =
     (let is_external = (netloc src \<noteq> []);
          image_tag = format_str ''<ri:url ri:value="{}" />'' (\<lambda>k. src)
      in if \<not> is_external
         then (format_str ''<ac:image>{image_tag}</ac:image>''
                 (\<lambda>k. format_str ''<ri:attachment ri:filename="{}" />'' (\<lambda>k. basename src)),
               self\<lparr>attachments := attachments self @ [src]\<rparr>)
         else (format_str ''<ac:image>{image_tag}</ac:image>'' (\<lambda>k. image_tag), self))\<close>

definition link ::
  "(string \<Rightarrow> string \<Rightarrow> string \<Rightarrow> string) \<Rightarrow> (string \<Rightarrow> string) \<Rightarrow>
   string \<Rightarrow> string \<Rightarrow> string \<Rightarrow> renderer \<Rightarrow> string \<times> renderer" where
  "link super_link netloc lnk title content self =
     (let is_external = (netloc lnk \<noteq> [])
      in if is_external then (super_link lnk title content, self)
         else (HTMLRenderer_text content, self))"

section \<open>The conversion\<close>

text \<open>
  The Markdown engine is not part of the program. It parses the body into a tree and
  renders it in one pass, the children of a node before the node, each node through the
  renderer's method for its kind. The parser is the parameter \<open>md_parse\<close>. The tree
  keeps apart the two methods that write to the renderer, \<open>heading\<close> and \<open>image\<close>
  (here \<open>render_image\<close>); \<open>Other f\<close> is a node of any other kind, whose method \<open>f\<close>
  makes its output from the outputs of its children and leaves the renderer as it is.
\<close>

datatype node =
    Heading "node list" int
  | Image string string string
  | Other "string list \<Rightarrow> string" "node list"

fun render :: "(string \<Rightarrow> string) \<Rightarrow> node \<Rightarrow> renderer \<Rightarrow> string \<times> renderer"
  and render_all :: "(string \<Rightarrow> string) \<Rightarrow> node list \<Rightarrow> renderer \<Rightarrow> string list \<times> renderer"
where
  "render netloc (Heading children level) self =
     (let (htmls, self1) = render_all netloc children self
      in heading (concat htmls) level self1)"
| "render netloc (Image src title alt_text) self = render_image netloc src title alt_text self"
| "render netloc (Other f children) self =
     (let (htmls, self1) = render_all netloc children self in (f htmls, self1))"
| "render_all netloc [] self = ([], self)"
| "render_all netloc (n # ns) self =
     (let (html, self1) = render netloc n self;
          (htmls, self2) = render_all netloc ns self1
      in (html # htmls, self2))"

fun heading_calls :: "(string \<Rightarrow> string) \<Rightarrow> node \<Rightarrow> renderer \<Rightarrow> (string \<times> int) list"
  and heading_calls_all :: "(string \<Rightarrow> string) \<Rightarrow> node list \<Rightarrow> renderer \<Rightarrow> (string \<times> int) list"
where
  "heading_calls netloc (Heading children level) self =
     (let (htmls, self1) = render_all netloc children self
      in heading_calls_all netloc children self @ [(concat htmls, level)])"
| "heading_calls netloc (Image src title alt_text) self = []"
| "heading_calls netloc (Other f children) self = heading_calls_all netloc children self"
| "heading_calls_all netloc [] self = []"
| "heading_calls_all netloc (n # ns) self =
     heading_calls netloc n self
       @ heading_calls_all netloc ns (snd (render netloc n self))"

fun has_h1 :: "node \<Rightarrow> bool" where
  "has_h1 (Heading children level) = (level = 1 \<or> (\<exists>n \<in> set children. has_h1 n))"
| "has_h1 (Image src title alt_text) = False"
| "has_h1 (Other f children) = (\<exists>n \<in> set children. has_h1 n)"

datatype fm_value = FNull | FStr string | FList "string list"

type_synonym front_matter = "string \<rightharpoonup> fm_value"



definition detected :: "(string \<times> int) list \<Rightarrow> string option" where
  \<comment> \<open>The text of the first call of \<open>heading\<close> with level 1 among the calls made.\<close>
  "detected calls = map_option fst (find (\<lambda>c. snd c = 1) calls)"

definition example_tree :: "node list" where
  \<comment> \<open>A small document for the examples: a heading of level 2, a paragraph with an
      image, and two headings of level 1.\<close>
  \<open>example_tree =
     [Heading [Other (\<lambda>hs. ''Intro'') []] 2,
      Other (\<lambda>hs. ''<p>'' @ concat hs @ ''</p>\<newline>'') [Image ''/a.png'' [] []],
      Heading [Other (\<lambda>hs. ''Title'') []] 1,
      Heading [Other (\<lambda>hs. ''More'') []] 1]\<close>

section \<open>Examples and fragments\<close>





text \<open>
  The two fragments of the layout as the specification describes them: a column macro of
  a given width around a given content, and the table of contents, a heading followed
  by the \<open>toc\<close> macro.
\<close>

definition column_macro :: "string \<Rightarrow> string \<Rightarrow> string" where
  \<open>column_macro width content =
     ''\<newline><ac:structured-macro ac:name="column" ac:schema-version="1">\<newline>'' @
     ''    <ac:parameter ac:name="width">'' @ width @ ''</ac:parameter>\<newline>'' @
     ''    <ac:rich-text-body>'' @ content @ ''</ac:rich-text-body>\<newline>'' @
     ''</ac:structured-macro>''\<close>

definition toc_fragment :: string where
  \<open>toc_fragment =
     ''\<newline><h1>Table of Contents</h1>\<newline>'' @
     ''<p><ac:structured-macro ac:name="toc" ac:schema-version="1">\<newline>'' @
     ''    <ac:parameter ac:name="exclude">^(Authors|Table of Contents)$</ac:parameter>\<newline>'' @
     ''</ac:structured-macro></p>''\<close>

definition author_macro :: "string \<Rightarrow> string" where
  \<open>author_macro user_key =
     ''<ac:structured-macro ac:name="profile-picture" ac:schema-version="1">\<newline>'' @
     ''                <ac:parameter ac:name="User"><ri:user ri:userkey="'' @ user_key @ ''" /></ac:parameter>\<newline>'' @
     ''            </ac:structured-macro>&nbsp;\<newline>'' @
     ''            <ac:link><ri:user ri:userkey="'' @ user_key @ ''" /></ac:link>''\<close>

section \<open>Calls in sequence\<close>


fun headings :: "(string \<times> int) list \<Rightarrow> renderer \<Rightarrow> string list \<times> renderer" where
  "headings [] self = ([], self)"
| "headings ((text, level) # calls) self =
     (let (html, self1) = heading text level self;
          (htmls, self2) = headings calls self1
      in (html # htmls, self2))"

definition default_heading :: "string \<times> int \<Rightarrow> string" where
  "default_heading call = HTMLRenderer_heading (fst call) (snd call)"

section \<open>Properties of the splitter\<close>

lemma readlines_nonempty: "l \<in> set (readlines s) \<Longrightarrow> l \<noteq> []"
  by (induction s arbitrary: l) (auto split: if_splits list.splits)

lemma set_fm_lines_step: "set (fm_lines (split_line sp l)) \<subseteq> insert l (set (fm_lines sp))"
  by (auto simp: split_line_def)

lemma set_fm_lines: "set (fm_lines (split_lines ls)) \<subseteq> set ls"
proof (induction ls rule: rev_induct)
  case Nil
  show ?case by (simp add: split_lines_def split_start_def)
next
  case (snoc l ls)
  have "set (fm_lines (split_lines (ls @ [l]))) \<subseteq> insert l (set (fm_lines (split_lines ls)))"
    using set_fm_lines_step [of "split_lines ls" l] by (simp add: split_lines_def)
  with snoc show ?case by auto
qed

lemma concat_nonempty: "\<forall>l \<in> set ls. l \<noteq> [] \<Longrightarrow> (concat ls = []) = (ls = [])"
  by (cases ls) auto

lemma parse_lines_refines:
  assumes "\<forall>l \<in> set ls. l \<noteq> []"
  shows "parse_lines ls =
           \<lparr>raw_yaml = concat (fm_lines (split_lines ls)),
            markdown = concat (body_lines (split_lines ls)),
            in_yaml = in_front_matter (split_lines ls)\<rparr>"
  using assms
proof (induction ls rule: rev_induct)
  case Nil
  show ?case by (simp add: parse_lines_def split_lines_def scan_start_def split_start_def)
next
  case (snoc l ls)
  let ?sp = "split_lines ls"
  have ih: "parse_lines ls =
      \<lparr>raw_yaml = concat (fm_lines ?sp), markdown = concat (body_lines ?sp),
       in_yaml = in_front_matter ?sp\<rparr>"
    using snoc by simp
  have "\<forall>x \<in> set (fm_lines ?sp). x \<noteq> []"
    using set_fm_lines [of ls] snoc.prems by auto
  then have ne: "(concat (fm_lines ?sp) = []) = (fm_lines ?sp = [])"
    by (rule concat_nonempty)
  have p: "parse_lines (ls @ [l]) = parse_line (parse_lines ls) l"
    by (simp add: parse_lines_def)
  have s: "split_lines (ls @ [l]) = split_line ?sp l"
    by (simp add: split_lines_def)
  show ?case
    unfolding p s ih
    by (simp add: parse_line_def split_line_def is_boundary_def YAML_BOUNDARY_def ne
          del: concat_eq_Nil_conv)
qed

lemma concat_readlines: "concat (readlines s) = s"
  by (induction s) (auto split: list.splits)

lemma readlines_first_line:
  "\<exists>ls. readlines (s @ CHR 0x0A # r) = (first_line s @ [CHR 0x0A]) # ls"
  by (induction s) (auto simp: first_line_def split: list.splits)

lemma strip_newline: "strip (s @ [CHR 0x0A]) = strip s"
proof (cases "\<forall>c \<in> set s. is_space c")
  case True
  have nl: "is_space (CHR 0x0A)" by (simp add: is_space_def)
  have "\<forall>x \<in> set (s @ [CHR 0x0A]). is_space x"
    using True nl by simp
  then have a: "dropWhile is_space (s @ [CHR 0x0A]) = []"
    by (rule dropWhile_eq_Nil_conv [THEN iffD2])
  have b: "dropWhile is_space s = []"
    using True by (rule dropWhile_eq_Nil_conv [THEN iffD2])
  show ?thesis unfolding strip_def a b ..
next
  case False
  have "is_space (CHR 0x0A)" by (simp add: is_space_def)
  with False show ?thesis by (auto simp: strip_def dropWhile_append)
qed

lemma parse_line_shift:
  assumes "raw_yaml st \<noteq> []"
  shows "parse_line (st\<lparr>raw_yaml := p @ raw_yaml st\<rparr>) l
           = (parse_line st l)\<lparr>raw_yaml := p @ raw_yaml (parse_line st l)\<rparr>"
    and "raw_yaml (parse_line st l) \<noteq> []"
  using assms by (auto simp: parse_line_def)

lemma foldl_parse_line_shift:
  "raw_yaml st \<noteq> [] \<Longrightarrow>
   foldl parse_line (st\<lparr>raw_yaml := p @ raw_yaml st\<rparr>) ls
     = (foldl parse_line st ls)\<lparr>raw_yaml := p @ raw_yaml (foldl parse_line st ls)\<rparr>"
proof (induction ls arbitrary: st)
  case Nil
  show ?case by simp
next
  case (Cons l ls)
  have "foldl parse_line (st\<lparr>raw_yaml := p @ raw_yaml st\<rparr>) (l # ls)
      = foldl parse_line ((parse_line st l)\<lparr>raw_yaml := p @ raw_yaml (parse_line st l)\<rparr>) ls"
    using parse_line_shift(1) [OF Cons.prems] by simp
  also have "\<dots> = (foldl parse_line (parse_line st l) ls)
       \<lparr>raw_yaml := p @ raw_yaml (foldl parse_line (parse_line st l) ls)\<rparr>"
    using parse_line_shift(2) [OF Cons.prems] by (rule Cons.IH)
  finally show ?case by simp
qed

lemma foldl_parse_line_closed:
  "\<not> in_yaml st \<Longrightarrow> foldl parse_line st ls = st\<lparr>markdown := markdown st @ concat ls\<rparr>"
  by (induction ls arbitrary: st) (auto simp: parse_line_def)

lemma parse_lines_one_boundary:
  assumes "l \<noteq> []" and "strip l \<noteq> ''---''"
  shows "parse_lines (''---\<newline>'' # l # ls)
           = (parse_lines (l # ls))\<lparr>raw_yaml := ''---\<newline>'' @ raw_yaml (parse_lines (l # ls))\<rparr>"
proof -
  let ?st = "scan_start\<lparr>raw_yaml := l\<rparr>"
  have b: "strip ''---\<newline>'' = ''---''"
    by (simp add: strip_def is_space_def)
  have a: "parse_line (parse_line scan_start ''---\<newline>'') l = ?st\<lparr>raw_yaml := ''---\<newline>'' @ raw_yaml ?st\<rparr>"
    using assms b by (simp add: parse_line_def scan_start_def YAML_BOUNDARY_def)
  have c: "parse_line scan_start l = ?st"
    by (simp add: parse_line_def scan_start_def)
  have n: "raw_yaml ?st \<noteq> []" using assms by simp
  show ?thesis
    unfolding parse_lines_def foldl_Cons a c
    using n by (rule foldl_parse_line_shift)
qed

lemma parse_lines_two_boundaries:
  "parse_lines (''---\<newline>'' # ''---\<newline>'' # ls)
     = \<lparr>raw_yaml = ''---\<newline>'', markdown = concat ls, in_yaml = False\<rparr>"
proof -
  have b: "strip ''---\<newline>'' = ''---''"
    by (simp add: strip_def is_space_def)
  have a: "parse_line (parse_line scan_start ''---\<newline>'') ''---\<newline>''
      = \<lparr>raw_yaml = ''---\<newline>'', markdown = [], in_yaml = False\<rparr>"
    using b by (simp add: parse_line_def scan_start_def YAML_BOUNDARY_def)
  show ?thesis
    unfolding parse_lines_def foldl_Cons a
    by (simp add: foldl_parse_line_closed)
qed

lemma readlines_boundary: "readlines (''---\<newline>'' @ s) = ''---\<newline>'' # readlines s"
  by simp

text \<open>
  Claim C5. At any line of the post, with \<open>st\<close> the state of the scan before the line
  and \<open>kept\<close> the lines put into the front-matter buffer so far (the buffer is their
  concatenation): the flag is up after the line exactly when it was up before and the
  line is not a boundary line met with something kept; a boundary line met with the flag
  up and something kept is dropped from both buffers; any other line met with the flag
  up, a boundary line with nothing kept among them, goes to the end of the front-matter
  buffer; and every line met with the flag down goes to the end of the body buffer.
\<close>

theorem splitter_line_scan:
  assumes "readlines post = ls @ line # rest"
  shows "(let st = parse_lines ls; st' = parse_lines (ls @ [line]);
              kept = fm_lines (split_lines ls)
          in raw_yaml st = concat kept
           \<and> in_yaml st' = (in_yaml st \<and> \<not> (strip line = ''---'' \<and> kept \<noteq> []))
           \<and> (in_yaml st \<and> strip line = ''---'' \<and> kept \<noteq> [] \<longrightarrow>
                raw_yaml st' = raw_yaml st \<and> markdown st' = markdown st)
           \<and> (in_yaml st \<and> \<not> (strip line = ''---'' \<and> kept \<noteq> []) \<longrightarrow>
                raw_yaml st' = raw_yaml st @ line \<and> markdown st' = markdown st)
           \<and> (\<not> in_yaml st \<longrightarrow>
                raw_yaml st' = raw_yaml st \<and> markdown st' = markdown st @ line))"
proof -
  have ne: "\<forall>x \<in> set ls. x \<noteq> []"
    using readlines_nonempty [of _ post] assms by simp
  then have kept_ne: "\<forall>x \<in> set (fm_lines (split_lines ls)). x \<noteq> []"
    using set_fm_lines [of ls] by auto
  have r: "parse_lines ls =
      \<lparr>raw_yaml = concat (fm_lines (split_lines ls)),
       markdown = concat (body_lines (split_lines ls)),
       in_yaml = in_front_matter (split_lines ls)\<rparr>"
    using ne by (rule parse_lines_refines)
  have raw: "raw_yaml (parse_lines ls) = concat (fm_lines (split_lines ls))"
    by (subst r) simp
  have e: "(raw_yaml (parse_lines ls) = []) = (fm_lines (split_lines ls) = [])"
    unfolding raw using kept_ne by (rule concat_nonempty)
  have step: "parse_lines (ls @ [line]) = parse_line (parse_lines ls) line"
    by (simp add: parse_lines_def)
  show ?thesis
    unfolding Let_def step
    using raw e by (simp add: parse_line_def YAML_BOUNDARY_def)
qed

theorem splitter_line_scan_witness:
  \<open>readlines ''---\<newline>title: T\<newline> --- \<newline>body\<newline>---\<newline>''
     = [''---\<newline>'', ''title: T\<newline>''] @ '' --- \<newline>'' # [''body\<newline>'', ''---\<newline>'']
   \<and> raw_yaml (parse_lines [''---\<newline>'', ''title: T\<newline>'']) = ''---\<newline>title: T\<newline>''
   \<and> in_yaml (parse_lines [''---\<newline>'', ''title: T\<newline>''])
   \<and> \<not> in_yaml (parse_lines ([''---\<newline>'', ''title: T\<newline>''] @ ['' --- \<newline>'']))
   \<and> raw_yaml (parse_lines ([''---\<newline>'', ''title: T\<newline>''] @ ['' --- \<newline>''])) = ''---\<newline>title: T\<newline>''
   \<and> markdown (parse_lines ([''---\<newline>'', ''title: T\<newline>''] @ ['' --- \<newline>''])) = []\<close>
proof -
  have h: \<open>readlines ''---\<newline>title: T\<newline> --- \<newline>body\<newline>---\<newline>''
     = [''---\<newline>'', ''title: T\<newline>''] @ '' --- \<newline>'' # [''body\<newline>'', ''---\<newline>'']\<close>
    by simp
  have k: \<open>fm_lines (split_lines [''---\<newline>'', ''title: T\<newline>'']) = [''---\<newline>'', ''title: T\<newline>'']\<close>
    by (simp add: split_lines_def split_line_def split_start_def is_boundary_def strip_def is_space_def)
  have b: \<open>strip '' --- \<newline>'' = ''---''\<close>
    by (simp add: strip_def is_space_def)
  have st: \<open>parse_lines [''---\<newline>'', ''title: T\<newline>'']
      = \<lparr>raw_yaml = ''---\<newline>title: T\<newline>'', markdown = [], in_yaml = True\<rparr>\<close>
    by (simp add: parse_lines_def parse_line_def scan_start_def YAML_BOUNDARY_def strip_def is_space_def)
  show ?thesis
    using splitter_line_scan [OF h] h k b st by (simp add: Let_def)
qed

text \<open>
  Claim C4, as amended. For every YAML block whose first line is not itself a boundary
  line and every Markdown body, the post with no leading boundary line and the post with
  one (the closing boundary line between block and body being there) split to the same
  body text and the same flag, and to front-matter texts that differ by the leading
  boundary line alone; so they give the same result with every decoder that decodes
  these two texts alike. With two leading boundary lines the second one closes the front
  matter, which is then the first boundary line alone, and the block, the closing line
  and the body all go to the body text.
\<close>

theorem leading_boundary_split:
  assumes "strip (first_line yaml) \<noteq> ''---''"
  shows "(let s0 = parse_lines (readlines (document 0 yaml body));
              s1 = parse_lines (readlines (document 1 yaml body));
              s2 = parse_lines (readlines (document 2 yaml body))
          in raw_yaml s1 = ''---\<newline>'' @ raw_yaml s0
           \<and> markdown s1 = markdown s0
           \<and> in_yaml s1 = in_yaml s0
           \<and> (yaml_load (''---\<newline>'' @ raw_yaml s0) = yaml_load (raw_yaml s0) \<longrightarrow>
                parse yaml_load (document 1 yaml body) = parse yaml_load (document 0 yaml body))
           \<and> s2 = \<lparr>raw_yaml = ''---\<newline>'', markdown = document 0 yaml body, in_yaml = False\<rparr>)"
proof -
  let ?d0 = "document 0 yaml body"
  obtain ls where ls: "readlines ?d0 = (first_line yaml @ [CHR 0x0A]) # ls"
    using readlines_first_line [of yaml "''---\<newline>'' @ body"]
    by (auto simp: document_def)
  have d1: "document 1 yaml body = ''---\<newline>'' @ ?d0"
    and d2: "document 2 yaml body = ''---\<newline>'' @ ''---\<newline>'' @ ?d0"
    by (simp_all add: document_def numeral_2_eq_2)
  have r1: "readlines (document 1 yaml body) = ''---\<newline>'' # readlines ?d0"
    unfolding d1 by (rule readlines_boundary)
  have r2: "readlines (document 2 yaml body) = ''---\<newline>'' # ''---\<newline>'' # readlines ?d0"
    unfolding d2 by (simp only: readlines_boundary)
  have nb: "strip (first_line yaml @ [CHR 0x0A]) \<noteq> ''---''"
    using assms by (simp add: strip_newline)
  have one: "parse_lines (readlines (document 1 yaml body))
      = (parse_lines (readlines ?d0))\<lparr>raw_yaml := ''---\<newline>'' @ raw_yaml (parse_lines (readlines ?d0))\<rparr>"
    unfolding r1 ls using nb by (intro parse_lines_one_boundary) simp_all
  have two: "parse_lines (readlines (document 2 yaml body))
      = \<lparr>raw_yaml = ''---\<newline>'', markdown = ?d0, in_yaml = False\<rparr>"
    unfolding r2 parse_lines_two_boundaries by (simp add: concat_readlines)
  have raw1: "raw_yaml (parse_lines (readlines (document 1 yaml body)))
      = ''---\<newline>'' @ raw_yaml (parse_lines (readlines ?d0))"
    and md1: "markdown (parse_lines (readlines (document 1 yaml body)))
      = markdown (parse_lines (readlines ?d0))"
    and in1: "in_yaml (parse_lines (readlines (document 1 yaml body)))
      = in_yaml (parse_lines (readlines ?d0))"
    unfolding one by simp_all
  have p: "parse yaml_load (document 1 yaml body) = parse yaml_load ?d0"
    if "yaml_load (''---\<newline>'' @ raw_yaml (parse_lines (readlines ?d0)))
          = yaml_load (raw_yaml (parse_lines (readlines ?d0)))"
    unfolding parse_def Let_def raw1 md1 that ..
  show ?thesis
    unfolding Let_def two raw1 md1 in1 using p by (simp del: One_nat_def)
qed

theorem leading_boundary_split_witness:
  \<open>strip (first_line ''title: T'') \<noteq> ''---''
   \<and> yaml_text (''---\<newline>'' @ raw_yaml (parse_lines (readlines (document 0 ''title: T'' ''# H\<newline>''))))
       = yaml_text (raw_yaml (parse_lines (readlines (document 0 ''title: T'' ''# H\<newline>''))))
   \<and> parse yaml_text (document 0 ''title: T'' ''# H\<newline>'') = Inr (''title: T\<newline>'', ''# H'')
   \<and> parse yaml_text (document 1 ''title: T'' ''# H\<newline>'') = Inr (''title: T\<newline>'', ''# H'')\<close>
proof -
  have h: \<open>strip (first_line ''title: T'') \<noteq> ''---''\<close>
    by (simp add: strip_def first_line_def is_space_def)
  have r: \<open>raw_yaml (parse_lines (readlines (document 0 ''title: T'' ''# H\<newline>''))) = ''title: T\<newline>''\<close>
    by code_simp
  have y: \<open>yaml_text (''---\<newline>'' @ raw_yaml (parse_lines (readlines (document 0 ''title: T'' ''# H\<newline>''))))
       = yaml_text (raw_yaml (parse_lines (readlines (document 0 ''title: T'' ''# H\<newline>''))))\<close>
    unfolding r by (simp add: yaml_text_def)
  have v: \<open>parse yaml_text (document 0 ''title: T'' ''# H\<newline>'') = Inr (''title: T\<newline>'', ''# H'')\<close>
    by code_simp
  from leading_boundary_split [OF h, of "''# H\<newline>''" yaml_text] y
  have \<open>parse yaml_text (document 1 ''title: T'' ''# H\<newline>'')
      = parse yaml_text (document 0 ''title: T'' ''# H\<newline>'')\<close>
    by (simp add: Let_def del: One_nat_def)
  with h y v show ?thesis by simp
qed

theorem two_leading_boundaries_counterexample:
  \<open>parse yaml_text (document 0 ''title: T'' ''# H\<newline>'') = Inr (''title: T\<newline>'', ''# H'')
   \<and> parse yaml_text (document 2 ''title: T'' ''# H\<newline>'') = Inr ([], ''title: T\<newline>---\<newline># H'')
   \<and> parse yaml_text (document 2 ''title: T'' ''# H\<newline>'') \<noteq> parse yaml_text (document 0 ''title: T'' ''# H\<newline>'')\<close>
  by code_simp

section \<open>Properties of the renderer\<close>

subsection \<open>Images\<close>






lemma image_tag_url:
  \<open>format_str ''<ac:image>{image_tag}</ac:image>''
       (\<lambda>k. format_str ''<ri:url ri:value="{}" />'' (\<lambda>k. src))
     = ''<ac:image><ri:url ri:value="'' @ src @ ''" /></ac:image>''\<close>
  by (simp add: format_str_def)

lemma image_tag_attachment:
  \<open>format_str ''<ac:image>{image_tag}</ac:image>''
       (\<lambda>k. format_str ''<ri:attachment ri:filename="{}" />'' (\<lambda>k. name))
     = ''<ac:image><ri:attachment ri:filename="'' @ name @ ''" /></ac:image>''\<close>
  by (simp add: format_str_def)

lemma image_eq:
  \<open>render_image netloc src title alt_text self =
     (if netloc src \<noteq> []
      then (''<ac:image><ri:url ri:value="'' @ src @ ''" /></ac:image>'', self)
      else (''<ac:image><ri:attachment ri:filename="'' @ basename src @ ''" /></ac:image>'',
            self\<lparr>attachments := attachments self @ [src]\<rparr>))\<close>
  unfolding render_image_def Let_def image_tag_url image_tag_attachment by simp




subsection \<open>Headings\<close>

lemma heading_eq:
  "heading text level self =
     (if top_heading self = None \<and> level = 1
      then ([], self\<lparr>has_toc := True, top_heading := Some text\<rparr>)
      else (HTMLRenderer_heading text level, self\<lparr>has_toc := True\<rparr>))"
  by (simp add: heading_def Let_def)

lemma headings_default:
  "top_heading self \<noteq> None \<or> (\<forall>c \<in> set calls. snd c \<noteq> 1) \<Longrightarrow>
   headings calls self
     = (map default_heading calls, self\<lparr>has_toc := has_toc self \<or> calls \<noteq> []\<rparr>)"
proof (induction calls arbitrary: self)
  case Nil
  show ?case by simp
next
  case (Cons call calls)
  obtain t level where c: "call = (t, level)" by (cases call) auto
  let ?s = "self\<lparr>has_toc := True\<rparr>"
  have h: "heading t level self = (HTMLRenderer_heading t level, ?s)"
    using Cons.prems c by (auto simp: heading_eq)
  have "top_heading ?s \<noteq> None \<or> (\<forall>c \<in> set calls. snd c \<noteq> 1)"
    using Cons.prems by auto
  then have "headings calls ?s
      = (map default_heading calls, ?s\<lparr>has_toc := has_toc ?s \<or> calls \<noteq> []\<rparr>)"
    by (rule Cons.IH)
  then show ?case
    unfolding c by (simp add: h default_heading_def)
qed

lemma headings_append:
  "headings (pre @ post) self =
     (let (a, self1) = headings pre self; (b, self2) = headings post self1 in (a @ b, self2))"
  by (induction pre arbitrary: self) (auto simp: split_beta Let_def)

lemma headings_first_h1:
  assumes "top_heading self = None" and "\<forall>c \<in> set pre. snd c \<noteq> 1"
  shows "headings (pre @ (text, 1) # post) self
     = (map default_heading pre @ [] # map default_heading post,
        self\<lparr>has_toc := True, top_heading := Some text\<rparr>)"
proof -
  let ?s1 = "self\<lparr>has_toc := has_toc self \<or> pre \<noteq> []\<rparr>"
  let ?s2 = "self\<lparr>has_toc := True, top_heading := Some text\<rparr>"
  have a: "headings pre self = (map default_heading pre, ?s1)"
    using assms(2) by (intro headings_default) simp
  have b: "heading text 1 ?s1 = ([], ?s2)"
    using assms(1) by (simp add: heading_eq)
  have c: "headings post ?s2 = (map default_heading post, ?s2\<lparr>has_toc := has_toc ?s2 \<or> post \<noteq> []\<rparr>)"
    by (intro headings_default) simp
  show ?thesis
    unfolding headings_append by (simp add: a b c)
qed

text \<open>
  Claim C2. Every call of \<open>heading\<close> leaves \<open>has_toc\<close> true. A call with level 1 on a
  renderer whose \<open>top_heading\<close> is not set stores its text there and returns the empty
  string; every other call returns the inherited rendering for its level and leaves
  \<open>top_heading\<close> as it is. So in a run of calls that starts with \<open>top_heading\<close> not
  set, the first call with level 1 sets it and returns the empty string, and all the
  calls before and after it, later calls with level 1 among them, are rendered as the
  inherited method does; and a run with no call of level 1, or one that starts with
  \<open>top_heading\<close> set, renders every call so and never sets it.
\<close>

theorem heading_top_heading_once:
  "has_toc (snd (heading text level self))
   \<and> heading text level self =
       (if top_heading self = None \<and> level = 1
        then ([], self\<lparr>has_toc := True, top_heading := Some text\<rparr>)
        else (HTMLRenderer_heading text level, self\<lparr>has_toc := True\<rparr>))
   \<and> (top_heading self = None \<and> (\<forall>c \<in> set pre. snd c \<noteq> 1) \<longrightarrow>
        headings (pre @ (text, 1) # post) self
          = (map default_heading pre @ [] # map default_heading post,
             self\<lparr>has_toc := True, top_heading := Some text\<rparr>))
   \<and> (top_heading self \<noteq> None \<or> (\<forall>c \<in> set calls. snd c \<noteq> 1) \<longrightarrow>
        headings calls self
          = (map default_heading calls, self\<lparr>has_toc := has_toc self \<or> calls \<noteq> []\<rparr>))"
  using heading_eq [of "text" level self] headings_first_h1 [of self pre "text" post]
    headings_default [of self calls]
  by (simp add: heading_eq)

theorem heading_top_heading_once_witness:
  \<open>top_heading (init_renderer None) = None
   \<and> snd (''Intro'', 2::int) \<noteq> 1
   \<and> headings ([(''Intro'', 2)] @ (''Title'', 1) # [(''Again'', 1), (''Sub'', 3)]) (init_renderer None)
       = ([''<h2>Intro</h2>\<newline>'', [], ''<h1>Again</h1>\<newline>'', ''<h3>Sub</h3>\<newline>''],
          \<lparr>attachments = [], authors = [], has_toc = True, top_heading = Some ''Title''\<rparr>)
   \<and> headings [(''Intro'', 2), (''Sub'', 3)] (init_renderer None)
       = ([''<h2>Intro</h2>\<newline>'', ''<h3>Sub</h3>\<newline>''],
          \<lparr>attachments = [], authors = [], has_toc = True, top_heading = None\<rparr>)\<close>
proof -
  have d: \<open>map default_heading [(''Intro'', 2)] = [''<h2>Intro</h2>\<newline>'']\<close>
    \<open>map default_heading [(''Again'', 1), (''Sub'', 3)] = [''<h1>Again</h1>\<newline>'', ''<h3>Sub</h3>\<newline>'']\<close>
    \<open>map default_heading [(''Intro'', 2), (''Sub'', 3)] = [''<h2>Intro</h2>\<newline>'', ''<h3>Sub</h3>\<newline>'']\<close>
    by code_simp+
  show ?thesis
    using
      heading_top_heading_once [of "''Title''" 1 "init_renderer None" "[(''Intro'', 2)]"
        "[(''Again'', 1), (''Sub'', 3)]" "[(''Intro'', 2), (''Sub'', 3)]"]
    unfolding d
    by (simp add: init_renderer_def)
qed

subsection \<open>The title of the document\<close>

lemma top_heading_image [simp]:
  "top_heading (snd (render_image netloc src title alt_text self)) = top_heading self"
  by (simp add: render_image_def Let_def)

lemma top_heading_heading:
  "top_heading (snd (heading t level self))
     = (case top_heading self of Some h \<Rightarrow> Some h
        | None \<Rightarrow> if level = 1 then Some t else None)"
  by (simp add: heading_def Let_def split: option.splits)

lemma detected_append:
  "detected (xs @ ys) = (case detected xs of Some h \<Rightarrow> Some h | None \<Rightarrow> detected ys)"
  by (induction xs) (auto simp: detected_def)

lemma detected_simps [simp]:
  "detected [] = None"
  "detected [(t, l)] = (if l = 1 then Some t else None)"
  by (simp_all add: detected_def)

lemma render_top_heading:
  "top_heading (snd (render netloc n self))
     = (case top_heading self of Some h \<Rightarrow> Some h
        | None \<Rightarrow> detected (heading_calls netloc n self))"
  and render_all_top_heading:
  "top_heading (snd (render_all netloc ns self))
     = (case top_heading self of Some h \<Rightarrow> Some h
        | None \<Rightarrow> detected (heading_calls_all netloc ns self))"
proof (induction netloc n self and netloc ns self rule: render_render_all.induct)
  case (1 netloc children level self)
  then show ?case
    by (auto simp: split_beta top_heading_heading detected_append split: option.splits)
next
  case (2 netloc src title alt_text self)
  show ?case by (simp split: option.splits)
next
  case (3 netloc f children self)
  then show ?case by (simp add: split_beta split: option.splits)
next
  case (4 netloc self)
  show ?case by (simp split: option.splits)
next
  case (5 netloc n ns self)
  have a: "top_heading (snd (render netloc n self))
      = (case top_heading self of Some h \<Rightarrow> Some h
         | None \<Rightarrow> detected (heading_calls netloc n self))"
    by (rule 5(1))
  have b: "top_heading (snd (render_all netloc ns (snd (render netloc n self))))
      = (case top_heading (snd (render netloc n self)) of Some h \<Rightarrow> Some h
         | None \<Rightarrow> detected (heading_calls_all netloc ns (snd (render netloc n self))))"
    by (rule 5(2) [OF refl prod.collapse])
  show ?case
    using a b by (auto simp: split_beta detected_append split: option.splits)
qed

lemma heading_calls_levels:
  "(\<exists>c \<in> set (heading_calls netloc n self). snd c = 1) = has_h1 n"
  and heading_calls_all_levels:
  "(\<exists>c \<in> set (heading_calls_all netloc ns self). snd c = 1) = (\<exists>n \<in> set ns. has_h1 n)"
proof (induction netloc n self and netloc ns self rule: render_render_all.induct)
  case (1 netloc children level self)
  then show ?case by (auto simp: split_beta)
next
  case (2 netloc src title alt_text self)
  show ?case by simp
next
  case (3 netloc f children self)
  then show ?case by simp
next
  case (4 netloc self)
  show ?case by simp
next
  case (5 netloc n ns self)
  have a: "(\<exists>c \<in> set (heading_calls netloc n self). snd c = 1) = has_h1 n"
    by (rule 5(1))
  have b: "(\<exists>c \<in> set (heading_calls_all netloc ns (snd (render netloc n self))). snd c = 1)
      = (\<exists>n \<in> set ns. has_h1 n)"
    by (rule 5(2) [OF refl prod.collapse])
  show ?case
    using a b by (auto simp: split_beta)
qed




subsection \<open>Block quotes\<close>

lemma count_str_skip:
  "c \<noteq> d \<Longrightarrow> count_str (c # s) (d # rest) = count_str s (d # rest)"
  by (subst count_str.simps) auto

lemma replace_str_skip:
  "c \<noteq> d \<Longrightarrow> replace_str (c # s) (d # rest) new = c # replace_str s (d # rest) new"
  by (subst replace_str.simps) auto

lemma count_closing_tag:
  \<open>CHR ''<'' \<notin> set x \<Longrightarrow> count_str (x @ ''</p>'') ''</p>'' = 1\<close>
proof (induction x)
  case Nil
  show ?case by code_simp
next
  case (Cons c x)
  then have "c \<noteq> CHR ''<''" by auto
  with Cons show ?case by (simp add: count_str_skip)
qed

lemma replace_opening_tag:
  \<open>CHR ''<'' \<notin> set x \<Longrightarrow> replace_str (x @ ''</p>'') ''<p>'' [] = x @ ''</p>''\<close>
proof (induction x)
  case Nil
  show ?case by code_simp
next
  case (Cons c x)
  then have "c \<noteq> CHR ''<''" by auto
  with Cons show ?case by (simp add: replace_str_skip)
qed

lemma replace_closing_tag:
  \<open>CHR ''<'' \<notin> set x \<Longrightarrow> replace_str (x @ ''</p>'') ''</p>'' [] = x\<close>
proof (induction x)
  case Nil
  show ?case by code_simp
next
  case (Cons c x)
  then have "c \<noteq> CHR ''<''" by auto
  with Cons show ?case by (simp add: replace_str_skip)
qed

lemma count_one_paragraph:
  \<open>CHR ''<'' \<notin> set x \<Longrightarrow> count_str (''<p>'' @ x @ ''</p>'') ''</p>'' = 1\<close>
proof -
  assume a: \<open>CHR ''<'' \<notin> set x\<close>
  have \<open>count_str (''<p>'' @ x @ ''</p>'') ''</p>'' = count_str (''p>'' @ x @ ''</p>'') ''</p>''\<close>
    by (subst count_str.simps) simp
  also have \<open>\<dots> = count_str (x @ ''</p>'') ''</p>''\<close>
    by (simp add: count_str_skip)
  finally show ?thesis using a by (simp add: count_closing_tag)
qed

lemma replace_one_paragraph:
  \<open>CHR ''<'' \<notin> set x \<Longrightarrow> replace_str (''<p>'' @ x @ ''</p>'') ''<p>'' [] = x @ ''</p>''\<close>
proof -
  assume a: \<open>CHR ''<'' \<notin> set x\<close>
  have \<open>replace_str (''<p>'' @ x @ ''</p>'') ''<p>'' [] = replace_str (x @ ''</p>'') ''<p>'' []\<close>
    by (subst replace_str.simps) simp
  then show ?thesis using a by (simp add: replace_opening_tag)
qed

text \<open>
  Claim C6, as amended. \<open>block_quote\<close> counts the closing paragraph tags only: when the
  content has exactly one \<open></p>\<close>, however many \<open><p>\<close> it has, every \<open><p>\<close> and then
  every \<open></p>\<close> is removed before the inherited method wraps the content in a
  blockquote; with no \<open></p>\<close> or more than one the content is wrapped as it is. So
  \<open><p>X</p>\<close>, for any \<open>X\<close> without \<open><\<close>, gives a blockquote of exactly \<open>X\<close>, and
  \<open><p>A</p><p>B</p>\<close> keeps both pairs of tags.
\<close>

theorem block_quote_single_closing_tag:
  \<open>block_quote content self =
     (HTMLRenderer_block_quote
        (if count_str content ''</p>'' = 1
         then replace_str (replace_str content ''<p>'' []) ''</p>'' []
         else content),
      self)
   \<and> (CHR ''<'' \<notin> set x \<longrightarrow>
        block_quote (''<p>'' @ x @ ''</p>'') self
          = (''<blockquote>\<newline>'' @ x @ ''</blockquote>\<newline>'', self))
   \<and> block_quote ''<p>A</p><p>B</p>'' self
       = (''<blockquote>\<newline><p>A</p><p>B</p></blockquote>\<newline>'', self)\<close>
proof -
  have two: \<open>count_str ''<p>A</p><p>B</p>'' ''</p>'' = 2\<close>
    by code_simp
  have one: \<open>block_quote (''<p>'' @ x @ ''</p>'') self
          = (''<blockquote>\<newline>'' @ x @ ''</blockquote>\<newline>'', self)\<close>
    if \<open>CHR ''<'' \<notin> set x\<close>
    unfolding block_quote_def Let_def HTMLRenderer_block_quote_def
      count_one_paragraph [OF that] replace_one_paragraph [OF that] replace_closing_tag [OF that]
    by simp
  show ?thesis
    using one by (simp add: block_quote_def Let_def HTMLRenderer_block_quote_def two)
qed

theorem block_quote_single_closing_tag_witness:
  \<open>CHR ''<'' \<notin> set ''Doing nothing is the hardest work of all.''
   \<and> block_quote ''<p>Doing nothing is the hardest work of all.</p>'' (init_renderer None)
       = (''<blockquote>\<newline>Doing nothing is the hardest work of all.</blockquote>\<newline>'',
          init_renderer None)\<close>
proof -
  have h: \<open>CHR ''<'' \<notin> set ''Doing nothing is the hardest work of all.''\<close>
    by simp
  have \<open>CHR ''<'' \<notin> set ''Doing nothing is the hardest work of all.'' \<longrightarrow>
        block_quote (''<p>'' @ ''Doing nothing is the hardest work of all.'' @ ''</p>'')
          (init_renderer None)
          = (''<blockquote>\<newline>'' @ ''Doing nothing is the hardest work of all.''
               @ ''</blockquote>\<newline>'', init_renderer None)\<close>
    using block_quote_single_closing_tag
      [of "[]" "init_renderer None" "''Doing nothing is the hardest work of all.''"]
    by blast
  with h show ?thesis by simp
qed

theorem block_quote_counterexample:
  \<open>count_str ''x</p>'' ''<p>'' = 0
   \<and> count_str ''x</p>'' ''</p>'' = 1
   \<and> fst (block_quote ''x</p>'' (init_renderer None)) = ''<blockquote>\<newline>x</blockquote>\<newline>''
   \<and> count_str ''<p>a<p>b</p>'' ''<p>'' = 2
   \<and> count_str ''<p>a<p>b</p>'' ''</p>'' = 1
   \<and> fst (block_quote ''<p>a<p>b</p>'' (init_renderer None)) = ''<blockquote>\<newline>ab</blockquote>\<newline>''\<close>
  by code_simp

subsection \<open>Diagrams\<close>










subsection \<open>Links\<close>









subsection \<open>The layout\<close>

lemma dedent_toc_source: "dedent toc_source = toc_fragment"
  by (simp add: dedent_def toc_source_def toc_fragment_def is_blank_def Let_def)

lemma dedent_column_source:
  "format_str (dedent column_source) (\<lambda>k. if k = ''width'' then w else c) = column_macro w c"
  by (simp add: dedent_def column_source_def column_macro_def is_blank_def Let_def format_str_def)

lemma format_author_template:
  "format_str author_template (\<lambda>k. user_key) = author_macro user_key"
  by (simp add: author_template_def author_macro_def format_str_def)

lemma render_authors_eq:
  \<open>render_authors self =
     (''<h1>Authors</h1><p>'' @ join_str ''<br />'' (map author_macro (authors self)) @ ''</p>'',
      self)\<close>
  unfolding render_authors_def Let_def format_author_template
  by (simp add: format_str_def)

text \<open>
  Claim C9. \<open>layout\<close> returns two column macros side by side, the second one after the
  end of the first: the column of width \<open>30%\<close> around the table of contents followed by
  the authors fragment, then the column of width \<open>800px\<close> around the content. The
  table of contents is the fragment \<open>toc_fragment\<close>, a heading and the \<open>toc\<close> macro that
  excludes \<open>^(Authors|Table of Contents)$\<close>, when \<open>has_toc\<close> is true, and the empty
  string when it is false. The renderer is returned as it was.
\<close>

theorem layout_two_columns:
  \<open>layout content self =
     (column_macro ''30%'' ((if has_toc self then toc_fragment else []) @ fst (render_authors self))
        @ column_macro ''800px'' content,
      self)
   \<and> fst (render_authors self)
       = ''<h1>Authors</h1><p>'' @ join_str ''<br />'' (map author_macro (authors self)) @ ''</p>''\<close>
  by (simp add: layout_def Let_def split_beta dedent_toc_source dedent_column_source
      render_authors_eq)

theorem layout_two_columns_witness:
  \<open>layout ''<p>Body</p>'' (init_renderer None)
     = (column_macro ''30%'' ''<h1>Authors</h1><p></p>'' @ column_macro ''800px'' ''<p>Body</p>'',
        init_renderer None)
   \<and> fst (layout ''<p>Body</p>'' (snd (heading ''Part'' 2 (init_renderer (Some [''1234567890''])))))
     = column_macro ''30%''
         (toc_fragment @ ''<h1>Authors</h1><p>'' @ author_macro ''1234567890'' @ ''</p>'')
       @ column_macro ''800px'' ''<p>Body</p>''\<close>
  using layout_two_columns [of "''<p>Body</p>''" "init_renderer None"]
    layout_two_columns [of "''<p>Body</p>''"
      "snd (heading ''Part'' 2 (init_renderer (Some [''1234567890''])))"]
  by (simp add: init_renderer_def heading_def Let_def)

subsection \<open>What the methods leave alone\<close>

lemma block_code_eq:
  \<open>block_code code lang self =
     (if lang = Some ''mermaid'' then block_mermaid code self
      else (''<ac:structured-macro ac:name="code" ac:schema-version="1">\<newline>'' @
            ''    <ac:parameter ac:name="language">'' @ (case lang of None \<Rightarrow> [] | Some l \<Rightarrow> l)
              @ ''</ac:parameter>\<newline>'' @
            ''    <ac:plain-text-body><![CDATA['' @ code @ '']]></ac:plain-text-body>\<newline>'' @
            ''</ac:structured-macro>\<newline>'',
            self))\<close>
proof -
  have d: \<open>format_str (dedent code_source) (\<lambda>k. if k = ''c'' then c else l)
      = ''<ac:structured-macro ac:name="code" ac:schema-version="1">\<newline>'' @
        ''    <ac:parameter ac:name="language">'' @ l @ ''</ac:parameter>\<newline>'' @
        ''    <ac:plain-text-body><![CDATA['' @ c @ '']]></ac:plain-text-body>\<newline>'' @
        ''</ac:structured-macro>\<newline>''\<close> for c l
    by (simp add: dedent_def code_source_def is_blank_def Let_def format_str_def)
  show ?thesis
    unfolding block_code_def d by simp
qed

lemma render_image_frame:
  "has_toc (snd (render_image netloc src title alt_text self)) = has_toc self"
  "authors (snd (render_image netloc src title alt_text self)) = authors self"
  "take (length (attachments self)) (attachments (snd (render_image netloc src title alt_text self)))
     = attachments self"
  by (simp_all add: image_eq)

lemma heading_frame:
  "attachments (snd (heading t level self)) = attachments self"
  "authors (snd (heading t level self)) = authors self"
  by (simp_all add: heading_eq)

lemma take_prefix_trans:
  "take (length a) b = a \<Longrightarrow> take (length b) c = b \<Longrightarrow> take (length a) c = a"
  by (metis append_eq_conv_conj append_take_drop_id append.assoc)

lemma render_frame:
  "authors (snd (render netloc n self)) = authors self
   \<and> take (length (attachments self)) (attachments (snd (render netloc n self))) = attachments self"
  and render_all_frame:
  "authors (snd (render_all netloc ns self)) = authors self
   \<and> take (length (attachments self)) (attachments (snd (render_all netloc ns self)))
       = attachments self"
proof (induction netloc n self and netloc ns self rule: render_render_all.induct)
  case (1 netloc children level self)
  then show ?case by (simp add: split_beta heading_frame)
next
  case (2 netloc src title alt_text self)
  show ?case by (simp add: render_image_frame)
next
  case (3 netloc f children self)
  then show ?case by (simp add: split_beta)
next
  case (4 netloc self)
  show ?case by simp
next
  case (5 netloc n ns self)
  let ?s1 = "snd (render netloc n self)"
  have a: "authors ?s1 = authors self"
    and b: "take (length (attachments self)) (attachments ?s1) = attachments self"
    using 5(1) by simp_all
  have c: "authors (snd (render_all netloc ns ?s1)) = authors ?s1"
    and d: "take (length (attachments ?s1)) (attachments (snd (render_all netloc ns ?s1)))
        = attachments ?s1"
    using 5(2) [OF refl prod.collapse] by simp_all
  show ?case
    using a c take_prefix_trans [OF b d] by (simp add: split_beta)
qed

text \<open>
  Claim C10. What each method leaves alone. \<open>image\<close> changes neither \<open>has_toc\<close> nor
  \<open>top_heading\<close> nor \<open>authors\<close>, and the attachments it finds are still there, in
  order, at the head of the list it leaves. \<open>heading\<close> changes neither \<open>attachments\<close>
  nor \<open>authors\<close>. \<open>block_code\<close>, \<open>block_mermaid\<close>, \<open>block_quote\<close>, \<open>link\<close>,
  \<open>render_authors\<close> and \<open>layout\<close> return the renderer as it was. So rendering any
  document leaves \<open>authors\<close> as it was and only adds to the end of \<open>attachments\<close>.
\<close>

theorem callbacks_frame:
  "has_toc (snd (render_image netloc src title alt_text self)) = has_toc self
   \<and> top_heading (snd (render_image netloc src title alt_text self)) = top_heading self
   \<and> authors (snd (render_image netloc src title alt_text self)) = authors self
   \<and> take (length (attachments self))
        (attachments (snd (render_image netloc src title alt_text self))) = attachments self
   \<and> attachments (snd (heading text level self)) = attachments self
   \<and> authors (snd (heading text level self)) = authors self
   \<and> snd (block_code code lang self) = self
   \<and> snd (block_mermaid code self) = self
   \<and> snd (block_quote content self) = self
   \<and> snd (link super_link netloc lnk title content self) = self
   \<and> snd (render_authors self) = self
   \<and> snd (layout content self) = self
   \<and> authors (snd (render_all netloc nodes self)) = authors self
   \<and> take (length (attachments self)) (attachments (snd (render_all netloc nodes self)))
       = attachments self"
  using render_all_frame [of netloc nodes self]
  by (simp add: render_image_frame heading_frame block_code_def block_mermaid_def
      block_quote_def link_def render_authors_def layout_def Let_def split_beta)

theorem callbacks_frame_witness:
  \<open>authors (snd (render_all netloc_of example_tree (init_renderer (Some [''1234567890'']))))
     = [''1234567890'']
   \<and> attachments (snd (heading ''Title'' 1
         (snd (render_image netloc_of ''/a.png'' [] [] (init_renderer None))))) = [''/a.png'']
   \<and> snd (layout ''<p>Body</p>'' (init_renderer None)) = init_renderer None\<close>
proof -
  have i: \<open>attachments (snd (render_image netloc_of ''/a.png'' [] [] (init_renderer None))) = [''/a.png'']\<close>
    by code_simp
  have h: \<open>attachments (snd (heading ''Title'' 1
         (snd (render_image netloc_of ''/a.png'' [] [] (init_renderer None)))))
      = attachments (snd (render_image netloc_of ''/a.png'' [] [] (init_renderer None)))\<close>
    using callbacks_frame
      [where self = "snd (render_image netloc_of ''/a.png'' [] [] (init_renderer None))"]
    by blast
  have a: \<open>authors (snd (render_all netloc_of example_tree (init_renderer (Some [''1234567890'']))))
      = authors (init_renderer (Some [''1234567890'']))\<close>
    using callbacks_frame
      [where self = "init_renderer (Some [''1234567890''])" and netloc = netloc_of
         and nodes = example_tree]
    by blast
  have l: \<open>snd (layout ''<p>Body</p>'' (init_renderer None)) = init_renderer None\<close>
    using callbacks_frame [where self = "init_renderer None" and content = "''<p>Body</p>''"]
    by blast
  show ?thesis
    using i h a l by (simp add: init_renderer_def)
qed

end
